theory Spec2Isabelle
  imports Complex_Main
begin

section \<open>The video Source of the watch pipeline (js/hang/src/watch/video/source.ts)\<close>

text \<open>
  A shallow embedding of the class \<open>Source\<close>. JavaScript numbers that hold
  pixel counts and millisecond timestamps are rationals (\<open>rat\<close>), sizes and counters
  are naturals, an optional field is an \<open>option\<close>, and a \<open>Record<string, VideoConfig>\<close>
  is an association list in the order \<open>Object.entries\<close> enumerates it.
\<close>

subsection \<open>Catalog data\<close>

type_synonym bytes = "nat list"

datatype container = Legacy | Cmaf (timescale: nat)

text \<open>
  Modelled from the spec: the type \<open>Catalog.VideoConfig\<close> is declared in the catalog
  module, which is not under src/. The fields are those of the spec's data model
  (section 3); source.ts reads \<open>codec\<close>, \<open>codedWidth\<close>, \<open>codedHeight\<close>,
  \<open>description\<close>, \<open>optimizeForLatency\<close> and \<open>container\<close>.
\<close>

record video_config =
  codec :: string
  codedWidth :: "nat option"
  codedHeight :: "nat option"
  description :: "string option"
  optimizeForLatency :: "bool option"
  container :: container
  flip :: "bool option"

text \<open>The type \<open>Target\<close> of source.ts.\<close>

record target =
  pixels :: "rat option"
  rendition :: "string option"

text \<open>
  The argument of \<open>VideoDecoder.isConfigSupported\<close>. \<open>dc_spread\<close> holds the catalog
  entry whose fields the object spread \<open>...rendition\<close> copies into the probe; it is
  \<open>None\<close> when the probe is built from the codec and the latency flag alone.
\<close>

record decoder_config =
  dc_codec :: string
  dc_description :: "bytes option"
  dc_optimizeForLatency :: bool
  dc_spread :: "video_config option"

subsection \<open>JavaScript truthiness\<close>

definition truthy_num :: "nat option \<Rightarrow> bool" where
  "truthy_num x = (case x of None \<Rightarrow> False | Some n \<Rightarrow> n \<noteq> 0)"

definition truthy_str :: "string option \<Rightarrow> bool" where
  "truthy_str x = (case x of None \<Rightarrow> False | Some s \<Rightarrow> s \<noteq> [])"

text \<open>\<open>x ?? true\<close> on an optional boolean.\<close>

definition or_true :: "bool option \<Rightarrow> bool" where
  "or_true x = (case x of None \<Rightarrow> True | Some b \<Rightarrow> b)"

subsection \<open>Source.#selectRendition\<close>

text \<open>\<open>Number.MAX_SAFE_INTEGER / 2 - 1\<close>, the target used when none is given.\<close>

definition default_pixels :: rat where
  "default_pixels = 9007199254740991 / 2 - 1"

record select_acc =
  larger :: "string option"
  largerSize :: "nat option"
  smaller :: "string option"
  smallerSize :: "nat option"

definition select_init :: select_acc where
  "select_init = \<lparr>larger = None, largerSize = None, smaller = None, smallerSize = None\<rparr>"

text \<open>One iteration of the \<open>for (const [name, rendition] of entries)\<close> loop.\<close>

definition select_step :: "rat \<Rightarrow> string \<times> video_config \<Rightarrow> select_acc \<Rightarrow> select_acc" where
  "select_step px e acc =
     (case (codedHeight (snd e), codedWidth (snd e)) of
        (Some h, Some w) \<Rightarrow>
          if h = 0 \<or> w = 0 then acc
          else
            let size = h * w in
            if of_nat size > px \<and>
               (\<not> truthy_num (largerSize acc) \<or> size < the (largerSize acc))
            then acc\<lparr>larger := Some (fst e), largerSize := Some size\<rparr>
            else if of_nat size < px \<and>
               (\<not> truthy_num (smallerSize acc) \<or> size > the (smallerSize acc))
            then acc\<lparr>smaller := Some (fst e), smallerSize := Some size\<rparr>
            else acc
      | _ \<Rightarrow> acc)"

definition selectRendition :: "(string \<times> video_config) list \<Rightarrow> target option \<Rightarrow> string option" where
  "selectRendition entries tgt =
     (if length entries \<le> 1 then (case entries of [] \<Rightarrow> None | e # _ \<Rightarrow> Some (fst e))
      else
        let px = (case tgt of None \<Rightarrow> default_pixels
                  | Some t \<Rightarrow> (case pixels t of None \<Rightarrow> default_pixels | Some p \<Rightarrow> p));
            acc = foldl (\<lambda>a e. select_step px e a) select_init entries
        in if truthy_str (larger acc) then larger acc
           else if truthy_str (smaller acc) then smaller acc
           else (case entries of [] \<Rightarrow> None | e # _ \<Rightarrow> Some (fst e)))"

subsection \<open>Source.#runSupported\<close>

text \<open>\<open>supported[name] = rendition\<close> on a record kept in enumeration order.\<close>

fun record_set :: "string \<Rightarrow> 'v \<Rightarrow> (string \<times> 'v) list \<Rightarrow> (string \<times> 'v) list" where
  "record_set k v [] = [(k, v)]"
| "record_set k v (e # es) = (if fst e = k then (k, v) # es else e # record_set k v es)"

text \<open>
  The task \<open>#runSupported\<close> spawns has no \<open>try\<close>: when \<open>Hex.toBytes\<close> throws or the
  promise of \<open>VideoDecoder.isConfigSupported\<close> rejects, the task ends there, before
  \<open>this.#supported.set\<close> and before the warning.
\<close>

datatype task_error = HexError | ProbeRejected

text \<open>
  The body of the loop over \<open>Object.entries(renditions)\<close>. The platform's answer
  \<open>isConfigSupported\<close> (\<open>None\<close> when the promise rejects) and \<open>Hex.toBytes\<close>
  (util/hex, not under src/; \<open>None\<close> when it throws) are parameters.
\<close>

definition supported_step ::
  "(decoder_config \<Rightarrow> bool option) \<Rightarrow> (string \<Rightarrow> bytes option) \<Rightarrow> string \<times> video_config \<Rightarrow>
   (string \<times> video_config) list \<Rightarrow> task_error + (string \<times> video_config) list" where
  "supported_step isConfigSupported toBytes e supported =
     (case container (snd e) of
        Cmaf ts \<Rightarrow>
          (case isConfigSupported
               \<lparr>dc_codec = codec (snd e), dc_description = None,
                dc_optimizeForLatency = or_true (optimizeForLatency (snd e)),
                dc_spread = None\<rparr> of
             None \<Rightarrow> Inl ProbeRejected
           | Some valid \<Rightarrow>
               Inr (if valid then record_set (fst e) (snd e) supported else supported))
      | Legacy \<Rightarrow>
          (case (if truthy_str (description (snd e))
                 then (case toBytes (the (description (snd e))) of
                         None \<Rightarrow> Inl HexError | Some b \<Rightarrow> Inr (Some b))
                 else Inr None) of
             Inl err \<Rightarrow> Inl err
           | Inr descr \<Rightarrow>
               (case isConfigSupported
                    \<lparr>dc_codec = codec (snd e), dc_description = descr,
                     dc_optimizeForLatency = or_true (optimizeForLatency (snd e)),
                     dc_spread = Some (snd e)\<rparr> of
                  None \<Rightarrow> Inl ProbeRejected
                | Some valid \<Rightarrow>
                    Inr (if valid then record_set (fst e) (snd e) supported else supported))))"

text \<open>The loop: it ends at the first error.\<close>

fun supported_loop ::
  "(decoder_config \<Rightarrow> bool option) \<Rightarrow> (string \<Rightarrow> bytes option) \<Rightarrow>
   (string \<times> video_config) list \<Rightarrow> (string \<times> video_config) list \<Rightarrow>
   task_error + (string \<times> video_config) list" where
  "supported_loop isConfigSupported toBytes [] supported = Inr supported"
| "supported_loop isConfigSupported toBytes (e # es) supported =
     (case supported_step isConfigSupported toBytes e supported of
        Inl err \<Rightarrow> Inl err
      | Inr supported' \<Rightarrow> supported_loop isConfigSupported toBytes es supported')"

text \<open>
  The spawned task of \<open>#runSupported\<close>: the error that ended it, or the value it
  stores in \<open>#supported\<close> and whether it called \<open>console.warn\<close>.
\<close>

definition runSupported ::
  "(decoder_config \<Rightarrow> bool option) \<Rightarrow> (string \<Rightarrow> bytes option) \<Rightarrow>
   (string \<times> video_config) list \<Rightarrow> task_error + (string \<times> video_config) list \<times> bool" where
  "runSupported isConfigSupported toBytes renditions =
     (case supported_loop isConfigSupported toBytes renditions [] of
        Inl err \<Rightarrow> Inl err
      | Inr supported \<Rightarrow> Inr (supported, length supported = 0 \<and> length renditions > 0))"

text \<open>
  A rendition on which the loop ends with an error: its description does not decode
  (legacy only), or the decoder rejects its probe.
\<close>

definition probe_fails ::
  "(decoder_config \<Rightarrow> bool option) \<Rightarrow> (string \<Rightarrow> bytes option) \<Rightarrow> string \<times> video_config \<Rightarrow> bool" where
  "probe_fails isConfigSupported toBytes e =
     (case container (snd e) of
        Cmaf ts \<Rightarrow>
          isConfigSupported
            \<lparr>dc_codec = codec (snd e), dc_description = None,
             dc_optimizeForLatency = or_true (optimizeForLatency (snd e)),
             dc_spread = None\<rparr> = None
      | Legacy \<Rightarrow>
          (if truthy_str (description (snd e))
           then toBytes (the (description (snd e))) = None
              \<or> isConfigSupported
                   \<lparr>dc_codec = codec (snd e),
                    dc_description = toBytes (the (description (snd e))),
                    dc_optimizeForLatency = or_true (optimizeForLatency (snd e)),
                    dc_spread = Some (snd e)\<rparr> = None
           else isConfigSupported
                   \<lparr>dc_codec = codec (snd e), dc_description = None,
                    dc_optimizeForLatency = or_true (optimizeForLatency (snd e)),
                    dc_spread = Some (snd e)\<rparr> = None))"

subsection \<open>Source.#runSelected\<close>

text \<open>
  The values the effect writes to \<open>#selected\<close>, \<open>#config\<close> and \<open>#selectedConfig\<close>,
  or \<open>None\<close> when it returns before writing. \<open>supported[selected]\<close> is always
  defined, since \<open>selected\<close> is a key of \<open>supported\<close> on both paths; the model
  returns \<open>None\<close> for a missing key.
\<close>

definition runSelected ::
  "bool \<Rightarrow> (string \<times> video_config) list \<Rightarrow> target option \<Rightarrow>
   (string \<times> video_config \<times> video_config) option" where
  "runSelected en supported tgt =
     (if \<not> en then None
      else
        let manual = (case tgt of None \<Rightarrow> None | Some t \<Rightarrow> rendition t);
            sel = (if truthy_str manual \<and> the manual \<in> fst ` set supported then manual
                   else selectRendition supported tgt)
        in if \<not> truthy_str sel then None
           else (case map_of supported (the sel) of
                   None \<Rightarrow> None
                 | Some c \<Rightarrow> Some (the sel, c, c\<lparr>codedWidth := None, codedHeight := None\<rparr>)))"

subsection \<open>Frames, samples and the state of a Source\<close>

text \<open>
  A \<open>VideoFrame\<close> object: its identity and its \<open>timestamp\<close> in microseconds.
\<close>

record video_frame =
  vf_handle :: nat
  vf_timestamp :: int

text \<open>A sample handed over by a container decoder, see \<open>next\<close> and \<open>sample\<close>.\<close>

record sample =
  smp_timestamp :: int
  smp_keyframe :: bool
  smp_data :: bytes

text \<open>The interface \<open>VideoStats\<close>.\<close>

record video_stats =
  frameCount :: nat
  stats_timestamp :: int
  bytesReceived :: nat

datatype buffer_state = Empty | Filled

text \<open>
  The statement of the decoder's output callback that wrote \<open>frame\<close>: the latch before
  the wait on Sync, or the write after it.
\<close>

datatype pub_kind = Placeholder | Gated

text \<open>
  The fields of \<open>Source\<close> and the objects it owns. An \<open>Effect\<close> that runs a track
  (the value of \<open>#pending\<close> and \<open>#active\<close>) is a number; \<open>tracks\<close> records the
  arguments \<open>#runTrack\<close> was called with for it, \<open>closed_effects\<close> the effects that
  were closed, \<open>waiting\<close> the invocations of the output callback suspended at
  \<open>await Promise.race([wait, effect.cancel])\<close>, and \<open>decode_queue\<close> the chunks passed
  to \<open>decoder.decode\<close>. \<open>frame_log\<close> is a history variable: every frame written to the
  signal \<open>frame\<close>, in order. \<open>signals_closed\<close> says that \<open>#signals\<close> was closed.
\<close>

record source =
  broadcast :: "nat option"
  enabled :: bool
  selected :: "string option"
  selectedConfig :: "video_config option"
  active :: "string option"
  pending_effect :: "nat option"
  active_effect :: "nat option"
  frame :: "video_frame option"
  timestamp :: "rat option"
  bufferStatus :: buffer_state
  stats :: "video_stats option"
  next_effect :: nat
  closed_effects :: "nat set"
  tracks :: "nat \<Rightarrow> (string \<times> video_config) option"
  waiting :: "(nat \<times> video_frame) list"
  decode_queue :: "(nat \<times> sample) list"
  next_handle :: nat
  closed_frames :: "nat set"
  frame_log :: "(pub_kind \<times> video_frame) list"
  signals_closed :: bool

text \<open>
  Modelled from the spec: \<open>Time.Milli.fromMicro\<close> belongs to @moq/lite, which is not
  under src/. Timestamps are producer microseconds (section 9); the millisecond value is
  taken to be the exact quotient.
\<close>

definition fromMicro :: "int \<Rightarrow> rat" where
  "fromMicro us = of_int us / 1000"

text \<open>\<open>this.#timestamp.peek() ?? 0\<close>\<close>

definition peek_timestamp :: "source \<Rightarrow> rat" where
  "peek_timestamp s = (case timestamp s of None \<Rightarrow> 0 | Some t \<Rightarrow> t)"

text \<open>\<open>frame.close()\<close>, \<open>frame.clone()\<close> and a frame object made by the decoder.\<close>

definition frame_close :: "video_frame \<Rightarrow> source \<Rightarrow> source" where
  "frame_close f s = s\<lparr>closed_frames := insert (vf_handle f) (closed_frames s)\<rparr>"

definition clone :: "video_frame \<Rightarrow> source \<Rightarrow> video_frame \<times> source" where
  "clone f s = (f\<lparr>vf_handle := next_handle s\<rparr>, s\<lparr>next_handle := Suc (next_handle s)\<rparr>)"

definition new_frame :: "int \<Rightarrow> source \<Rightarrow> video_frame \<times> source" where
  "new_frame ts s =
     (\<lparr>vf_handle = next_handle s, vf_timestamp = ts\<rparr>, s\<lparr>next_handle := Suc (next_handle s)\<rparr>)"

text \<open>A write of a frame to the signal \<open>frame\<close>.\<close>

definition frame_set :: "pub_kind \<Rightarrow> video_frame \<Rightarrow> source \<Rightarrow> source" where
  "frame_set k f s = s\<lparr>frame := Some f, frame_log := frame_log s @ [(k, f)]\<rparr>"

text \<open>\<open>prev?.close()\<close> inside \<open>this.frame.update\<close>.\<close>

definition close_prev :: "source \<Rightarrow> source" where
  "close_prev s = (case frame s of None \<Rightarrow> s | Some p \<Rightarrow> frame_close p s)"

subsection \<open>Closing the effect of a track\<close>

text \<open>
  Modelled from the spec: the class \<open>Effect\<close> belongs to @moq/signals, which is not under
  src/. By section 5, closing a scope cancels the suspensions inside it and runs the
  registered cleanups in LIFO order; closing it again does nothing. The cleanups are the
  ones \<open>#runTrack\<close> and its callees register: the consumer, the decoder and the
  subscription are closed (they are closed exactly when the effect is), and
  \<open>#timestamp\<close> is reset if the effect is the active one. An invocation of the output
  callback suspended on this effect gets \<open>ok\<close> false from the race and returns through
  \<open>finally\<close>, which closes its frame.
\<close>

definition close_effect :: "nat \<Rightarrow> source \<Rightarrow> source" where
  "close_effect e s =
     (if e \<in> closed_effects s then s
      else
        let s1 = s\<lparr>closed_effects := insert e (closed_effects s)\<rparr>;
            s2 = (if active_effect s1 = Some e then s1\<lparr>timestamp := None\<rparr> else s1);
            s3 = s2\<lparr>waiting := filter (\<lambda>w. fst w \<noteq> e) (waiting s2)\<rparr>
        in foldl (\<lambda>a w. frame_close (snd w) a) s3 (filter (\<lambda>w. fst w = e) (waiting s2)))"

subsection \<open>The output callback of the VideoDecoder in Source.#runTrack\<close>

text \<open>
  The callback up to its \<open>await\<close>: the first staleness check, the latch, and the
  suspension on the race between \<open>sync.wait(timestamp)\<close> and \<open>effect.cancel\<close>.
\<close>

definition output_begin :: "nat \<Rightarrow> video_frame \<Rightarrow> source \<Rightarrow> source" where
  "output_begin e f s =
     (let ts = fromMicro (vf_timestamp f) in
      if ts < peek_timestamp s then frame_close f s
      else
        let s1 = (if frame s = None
                  then (case clone f s of (c, s') \<Rightarrow> frame_set Placeholder c s')
                  else s)
        in s1\<lparr>waiting := waiting s1 @ [(e, f)]\<rparr>)"

text \<open>
  The callback from the \<open>await\<close> on, given the value \<open>ok\<close> of the race; \<open>name\<close> is the
  track name \<open>#runTrack\<close> was called with.
\<close>

definition output_resume :: "nat \<Rightarrow> string \<Rightarrow> video_frame \<Rightarrow> bool \<Rightarrow> source \<Rightarrow> source" where
  "output_resume e name f ok s =
     (if \<not> ok then frame_close f s
      else
        let ts = fromMicro (vf_timestamp f) in
        if ts < peek_timestamp s then frame_close f s
        else
          let s1 = s\<lparr>timestamp := Some ts\<rparr>;
              s2 = close_prev s1;
              s3 = (case clone f s2 of (c, s') \<Rightarrow> frame_set Gated c s');
              s4 = (if pending_effect s3 = Some e
                    then (let s' = (case active_effect s3 of
                                      None \<Rightarrow> s3 | Some a \<Rightarrow> close_effect a s3)
                          in s'\<lparr>active_effect := Some e, pending_effect := None,
                                active := Some name\<rparr>)
                    else s3)
          in frame_close f s4)"

subsection \<open>Source.#runLegacyTrack and Source.#runCmafTrack: one received sample\<close>

text \<open>The function passed to \<open>this.#stats.update\<close>, the same in both loops.\<close>

definition next_stats :: "video_stats option \<Rightarrow> sample \<Rightarrow> video_stats" where
  "next_stats current smp =
     \<lparr>frameCount = (case current of None \<Rightarrow> 0 | Some c \<Rightarrow> frameCount c) + 1,
      stats_timestamp = smp_timestamp smp,
      bytesReceived = (case current of None \<Rightarrow> 0 | Some c \<Rightarrow> bytesReceived c)
                      + length (smp_data smp)\<rparr>"

text \<open>
  One iteration of the legacy loop, for the frame \<open>next\<close> the consumer returned: the
  stats are updated and the chunk is passed to the decoder. The call of
  \<open>sync.update\<close> changes the Sync clock only, which is not part of this state.
\<close>

definition runLegacyTrack_frame :: "nat \<Rightarrow> sample \<Rightarrow> source \<Rightarrow> source" where
  "runLegacyTrack_frame e next s =
     s\<lparr>stats := Some (next_stats (stats s) next),
       decode_queue := decode_queue s @ [(e, next)]\<rparr>"

text \<open>
  The CMAF loop over the samples of one data segment
  (\<open>for (const sample of samples)\<close>); \<open>Container.Cmaf.decodeDataSegment\<close> is not under
  src/, the samples it returned are the argument.
\<close>

definition runCmafTrack_segment :: "nat \<Rightarrow> sample list \<Rightarrow> source \<Rightarrow> source" where
  "runCmafTrack_segment e samples s =
     foldl (\<lambda>a smp. a\<lparr>stats := Some (next_stats (stats a) smp),
                       decode_queue := decode_queue a @ [(e, smp)]\<rparr>) s samples"

subsection \<open>Source.#runTrack and Source.#runPending\<close>

text \<open>
  \<open>#runTrack\<close> subscribes to the track, creates and configures the decoder and spawns
  the receive loop, all owned by the effect; the state records the track that runs
  under it.
\<close>

definition runTrack :: "nat \<Rightarrow> string \<Rightarrow> video_config \<Rightarrow> source \<Rightarrow> source" where
  "runTrack e name config s = s\<lparr>tracks := (tracks s)(e \<mapsto> (name, config))\<rparr>"

definition runPending :: "source \<Rightarrow> source" where
  "runPending s =
     (if broadcast s = None \<or> \<not> truthy_str (selected s) \<or> selectedConfig s = None \<or> \<not> enabled s
      then
        let s1 = (case active_effect s of None \<Rightarrow> s | Some a \<Rightarrow> close_effect a s);
            s2 = s1\<lparr>active_effect := None\<rparr>;
            s3 = close_prev s2
        in s3\<lparr>frame := None\<rparr>
      else
        let e = next_effect s;
            s1 = s\<lparr>pending_effect := Some e, next_effect := Suc e\<rparr>
        in runTrack e (the (selected s)) (the (selectedConfig s)) s1)"

text \<open>
  The cleanup \<open>#runPending\<close> registers: \<open>() => this.#pending?.close()\<close>. A run that
  takes the tear-down branch registers none; \<open>#pending\<close> is then undefined or an effect
  that the previous cleanup closed, and closing it again does nothing.
\<close>

definition cleanup_pending :: "source \<Rightarrow> source" where
  "cleanup_pending s = (case pending_effect s of None \<Rightarrow> s | Some p \<Rightarrow> close_effect p s)"

subsection \<open>Source.#runBuffer and Source.close\<close>

definition runBuffer :: "source \<Rightarrow> source" where
  "runBuffer s =
     (let isBufferEmpty = (enabled s \<and> frame s = None)
      in if isBufferEmpty then s\<lparr>bufferStatus := Empty\<rparr> else s\<lparr>bufferStatus := Filled\<rparr>)"

text \<open>
  \<open>close()\<close> clears the frame and closes \<open>#signals\<close>, which closes the effects created
  with \<open>this.#signals.effect\<close> and so runs the cleanup of \<open>#runPending\<close>. The effect of a
  track is created with \<open>new Effect()\<close> and is closed only where the source closes it.
\<close>

definition close :: "source \<Rightarrow> source" where
  "close s =
     (let s1 = (close_prev s)\<lparr>frame := None\<rparr>;
          s2 = cleanup_pending s1
      in s2\<lparr>signals_closed := True\<rparr>)"

subsection \<open>The constructor and the reactive driver\<close>

text \<open>
  The field initialisers and the constructor, for the current value of the
  \<open>broadcast\<close> signal and \<open>props?.enabled ?? false\<close>. The constructor registers the
  effects, which run once: \<open>#selected\<close> is undefined, so \<open>#runPending\<close> takes its
  tear-down branch, and \<open>#runBuffer\<close> sets the buffer status.
\<close>

definition fields :: "nat option \<Rightarrow> bool \<Rightarrow> source" where
  "fields b en =
     \<lparr>broadcast = b, enabled = en, selected = None, selectedConfig = None, active = None,
      pending_effect = None, active_effect = None, frame = None, timestamp = None,
      bufferStatus = Empty, stats = None, next_effect = 0, closed_effects = {},
      tracks = Map.empty, waiting = [], decode_queue = [], next_handle = 0,
      closed_frames = {}, frame_log = [], signals_closed = False\<rparr>"

definition constructor :: "nat option \<Rightarrow> bool \<Rightarrow> source" where
  "constructor b en = runBuffer (runPending (fields b en))"

text \<open>
  What happens to a Source between two settled states: a signal it reads is set from
  outside (\<open>broadcast\<close>, \<open>enabled\<close>), the effect \<open>#runSelected\<close> writes \<open>#selected\<close> and
  \<open>#selectedConfig\<close>, a receive loop gets a frame or a segment, the decoder of a track
  outputs a frame, the wait on Sync of a suspended invocation resolves, a decoder
  reports an error (\<open>effect.close()\<close>), or \<open>close()\<close> is called.
\<close>

datatype event =
    SetBroadcast "nat option"
  | SetEnabled bool
  | SetSelected "string option" "video_config option"
  | LegacyFrame nat sample
  | CmafSegment nat "sample list"
  | Output nat int
  | Ready nat video_frame
  | DecoderError nat
  | Close

text \<open>
  A track produces input and output only while its effect is open and only for its own
  container kind; the wait of an invocation resolves with \<open>ok\<close> true only while the
  invocation is suspended.
\<close>

definition running :: "source \<Rightarrow> nat \<Rightarrow> bool" where
  "running s e = (tracks s e \<noteq> None \<and> e \<notin> closed_effects s)"

fun apply_event :: "event \<Rightarrow> source \<Rightarrow> source" where
  "apply_event (SetBroadcast b) s = s\<lparr>broadcast := b\<rparr>"
| "apply_event (SetEnabled en) s = s\<lparr>enabled := en\<rparr>"
| "apply_event (SetSelected sel cfg) s = s\<lparr>selected := sel, selectedConfig := cfg\<rparr>"
| "apply_event (LegacyFrame e smp) s =
     (case tracks s e of
        Some (name, cfg) \<Rightarrow>
          if e \<notin> closed_effects s \<and> container cfg = Legacy
          then runLegacyTrack_frame e smp s else s
      | None \<Rightarrow> s)"
| "apply_event (CmafSegment e smps) s =
     (case tracks s e of
        Some (name, cfg) \<Rightarrow>
          if e \<notin> closed_effects s \<and> container cfg \<noteq> Legacy
          then runCmafTrack_segment e smps s else s
      | None \<Rightarrow> s)"
| "apply_event (Output e ts) s =
     (if running s e then (case new_frame ts s of (f, s') \<Rightarrow> output_begin e f s') else s)"
| "apply_event (Ready e f) s =
     (case tracks s e of
        Some (name, cfg) \<Rightarrow>
          if (e, f) \<in> set (waiting s)
          then output_resume e name f True (s\<lparr>waiting := remove1 (e, f) (waiting s)\<rparr>)
          else s
      | None \<Rightarrow> s)"
| "apply_event (DecoderError e) s = (if running s e then close_effect e s else s)"
| "apply_event Close s = close s"

text \<open>The signals \<open>#runPending\<close> reads with \<open>effect.get\<close>.\<close>

definition pending_inputs ::
  "source \<Rightarrow> nat option \<times> bool \<times> string option \<times> video_config option" where
  "pending_inputs s = (broadcast s, enabled s, selected s, selectedConfig s)"

text \<open>
  Modelled from the spec: the classes \<open>Signal\<close> and \<open>Effect\<close> belong to @moq/signals,
  which is not under src/. By sections 5 and 9 an effect is a task that re-runs when a
  signal it read changes, after its cleanups ran, and a closed scope runs nothing any
  more. \<open>old\<close> is the state before the event: \<open>#runPending\<close> re-runs when one of its
  inputs has a new value, and \<open>#runBuffer\<close>, a function of \<open>frame\<close> and \<open>enabled\<close>
  alone, is brought up to date.
\<close>

definition settle :: "source \<Rightarrow> source \<Rightarrow> source" where
  "settle old s =
     (if signals_closed s then s
      else
        let s1 = (if pending_inputs s = pending_inputs old then s
                  else runPending (cleanup_pending s))
        in runBuffer s1)"

definition step :: "event \<Rightarrow> source \<Rightarrow> source" where
  "step ev s = settle s (apply_event ev s)"

definition run :: "event list \<Rightarrow> source \<Rightarrow> source" where
  "run evs s = foldl (\<lambda>a ev. step ev a) s evs"

subsection \<open>Well-formed states\<close>


subsection \<open>The history of the frame signal\<close>

text \<open>
  The events of the decoder's output path, the millisecond timestamps of the frames
  written to \<open>frame\<close>, and of those written after the wait on Sync.
\<close>

fun is_output_event :: "event \<Rightarrow> bool" where
  "is_output_event (Output e ts) = True"
| "is_output_event (Ready e f) = True"
| "is_output_event ev = False"

definition published_ts :: "(pub_kind \<times> video_frame) list \<Rightarrow> rat list" where
  "published_ts lg = map (\<lambda>p. fromMicro (vf_timestamp (snd p))) lg"

definition gated_ts :: "(pub_kind \<times> video_frame) list \<Rightarrow> rat list" where
  "gated_ts lg = published_ts (filter (\<lambda>p. fst p = Gated) lg)"

text \<open>
  What one step of the output path did to the frame signal and to \<open>#timestamp\<close>:
  nothing, the latch, or the write after the wait.
\<close>

datatype outcome = Dropped | Latched video_frame | Emitted video_frame

definition step_outcome :: "source \<Rightarrow> source \<Rightarrow> outcome \<Rightarrow> bool" where
  "step_outcome s s' oc =
     (case oc of
        Dropped \<Rightarrow> frame_log s' = frame_log s \<and> timestamp s' = timestamp s
      | Latched c \<Rightarrow> frame_log s' = frame_log s @ [(Placeholder, c)] \<and> timestamp s' = timestamp s
            \<and> peek_timestamp s \<le> fromMicro (vf_timestamp c)
      | Emitted c \<Rightarrow> frame_log s' = frame_log s @ [(Gated, c)]
            \<and> timestamp s' = Some (fromMicro (vf_timestamp c))
            \<and> peek_timestamp s \<le> fromMicro (vf_timestamp c))"

subsection \<open>The candidates of the automatic selection\<close>

text \<open>A rendition the loop does not skip: both coded dimensions are present and non-zero.\<close>

definition has_size :: "string \<times> video_config \<Rightarrow> bool" where
  "has_size e = (truthy_num (codedHeight (snd e)) \<and> truthy_num (codedWidth (snd e)))"

text \<open>\<open>rendition.codedHeight * rendition.codedWidth\<close>\<close>

definition area :: "string \<times> video_config \<Rightarrow> nat" where
  "area e = (case (codedHeight (snd e), codedWidth (snd e)) of
               (Some h, Some w) \<Rightarrow> h * w | _ \<Rightarrow> 0)"

text \<open>\<open>target?.pixels ?? Number.MAX_SAFE_INTEGER / 2 - 1\<close>\<close>

definition target_pixels :: "target option \<Rightarrow> rat" where
  "target_pixels tgt = (case tgt of None \<Rightarrow> default_pixels
                  | Some t \<Rightarrow> (case pixels t of None \<Rightarrow> default_pixels | Some p \<Rightarrow> p))"

text \<open>The renditions with a size strictly above, and strictly below, a pixel count.\<close>

definition above :: "rat \<Rightarrow> (string \<times> video_config) list \<Rightarrow> (string \<times> video_config) list" where
  "above px es = filter (\<lambda>e. has_size e \<and> of_nat (area e) > px) es"

definition below :: "rat \<Rightarrow> (string \<times> video_config) list \<Rightarrow> (string \<times> video_config) list" where
  "below px es = filter (\<lambda>e. has_size e \<and> of_nat (area e) < px) es"

text \<open>
  The loop invariant of \<open>#selectRendition\<close>: \<open>larger\<close> is the first rendition of least
  area among those above the target seen so far, \<open>smaller\<close> the first of greatest area
  among those below it.
\<close>

definition select_inv :: "rat \<Rightarrow> (string \<times> video_config) list \<Rightarrow> select_acc \<Rightarrow> bool" where
  "select_inv px es acc =
     ((if above px es = [] then larger acc = None \<and> largerSize acc = None
       else larger acc = Some (fst (arg_min_list area (above px es)))
          \<and> largerSize acc = Some (area (arg_min_list area (above px es))))
    \<and> (if below px es = [] then smaller acc = None \<and> smallerSize acc = None
       else smaller acc = Some (fst (arg_min_list (\<lambda>e. - int (area e)) (below px es)))
          \<and> smallerSize acc = Some (area (arg_min_list (\<lambda>e. - int (area e)) (below px es)))))"

subsection \<open>Promotion over an active pipeline\<close>

text \<open>
  A step that promotes a pending pipeline while another pipeline is active and open: the
  wait of a suspended invocation of the pending pipeline resolves, its frame is not
  stale, and \<open>this.#active?.close()\<close> closes the active pipeline.
\<close>

definition promotes_over_active :: "event \<Rightarrow> source \<Rightarrow> bool" where
  "promotes_over_active ev s =
     (case ev of
        Ready e f \<Rightarrow>
          pending_effect s = Some e \<and> tracks s e \<noteq> None \<and> (e, f) \<in> set (waiting s)
          \<and> \<not> fromMicro (vf_timestamp f) < peek_timestamp s
          \<and> (case active_effect s of None \<Rightarrow> False | Some a \<Rightarrow> a \<notin> closed_effects s)
      | _ \<Rightarrow> False)"

text \<open>No step of the run is such a promotion.\<close>

fun no_takeover :: "event list \<Rightarrow> source \<Rightarrow> bool" where
  "no_takeover [] s = True"
| "no_takeover (ev # evs) s = (\<not> promotes_over_active ev s \<and> no_takeover evs (step ev s))"

section \<open>Example data\<close>

definition cfg_hd :: video_config where
  "cfg_hd = \<lparr>codec = ''avc1.640028'', codedWidth = Some 1920, codedHeight = Some 1080,
             description = Some ''0164'', optimizeForLatency = None, container = Legacy,
             flip = None\<rparr>"

definition cfg_sd :: video_config where
  "cfg_sd = \<lparr>codec = ''avc1.640028'', codedWidth = Some 640, codedHeight = Some 360,
             description = Some ''0164'', optimizeForLatency = None, container = Legacy,
             flip = None\<rparr>"

definition cfg_cmaf :: video_config where
  "cfg_cmaf = \<lparr>codec = ''avc1.640028'', codedWidth = Some 1920, codedHeight = Some 1080,
               description = None, optimizeForLatency = Some False, container = Cmaf 90000,
               flip = None\<rparr>"

definition sel_hd :: video_config where
  "sel_hd = cfg_hd\<lparr>codedWidth := None, codedHeight := None\<rparr>"

definition sel_sd :: video_config where
  "sel_sd = cfg_sd\<lparr>codedWidth := None, codedHeight := None\<rparr>"

text \<open>
  A Source with a broadcast, enabled, after \<open>#runSelected\<close> selected the rendition
  \<open>hd\<close>: the pipeline of the track runs under effect 0 and is pending.
\<close>

definition started :: source where
  "started = step (SetSelected (Some ''hd'') (Some sel_hd)) (constructor (Some 0) True)"

text \<open>
  The decoder outputs a frame of 100 ms and then one of 50 ms; the wait of the second
  resolves, then the wait of the first.
\<close>

definition late_frame_events :: "event list" where
  "late_frame_events =
     [Output 0 100000, Output 0 50000,
      Ready 0 \<lparr>vf_handle = 2, vf_timestamp = 50000\<rparr>,
      Ready 0 \<lparr>vf_handle = 0, vf_timestamp = 100000\<rparr>]"

definition select_hd :: event where
  "select_hd = SetSelected (Some ''hd'') (Some sel_hd)"

definition frame_100 :: video_frame where
  "frame_100 = \<lparr>vf_handle = 0, vf_timestamp = 100000\<rparr>"

definition frame_133 :: video_frame where
  "frame_133 = \<lparr>vf_handle = 3, vf_timestamp = 133333\<rparr>"

text \<open>
  The Source after the first frame of the track went through the output callback: the
  pipeline under effect 0 is active and a frame of 100 ms is published.
\<close>

definition playing :: source where
  "playing = run [select_hd, Output 0 100000, Ready 0 frame_100] (constructor (Some 0) True)"

text \<open>The catalog entry \<open>hd\<close> after the producer changed the coded size.\<close>

definition cfg_hd_720 :: video_config where
  "cfg_hd_720 = cfg_hd\<lparr>codedWidth := Some 1280, codedHeight := Some 720\<rparr>"

definition sample_100 :: sample where
  "sample_100 = \<lparr>smp_timestamp = 100000, smp_keyframe = True, smp_data = [0, 0, 1]\<rparr>"

definition sample_133 :: sample where
  "sample_133 = \<lparr>smp_timestamp = 133333, smp_keyframe = False, smp_data = [7, 7]\<rparr>"

text \<open>
  The Source while it plays \<open>hd\<close> after \<open>#runSelected\<close> selected \<open>sd\<close>: the pipeline of
  \<open>hd\<close> (effect 0) is active, the one of \<open>sd\<close> (effect 1) is pending.
\<close>

definition switching :: source where
  "switching = step (SetSelected (Some ''sd'') (Some sel_sd)) playing"

text \<open>The active pipeline publishes two more frames while the switch is pending.\<close>

definition active_frame_events :: "event list" where
  "active_frame_events =
     [Output 0 133333, Ready 0 \<lparr>vf_handle = 3, vf_timestamp = 133333\<rparr>,
      Output 0 166666, Ready 0 \<lparr>vf_handle = 5, vf_timestamp = 166666\<rparr>]"

text \<open>
  The pending pipeline outputs a frame of 150 ms and one of 140 ms; the wait of the
  first resolves, then the wait of the second.
\<close>

definition takeover_events :: "event list" where
  "takeover_events =
     [Output 1 150000, Output 1 140000,
      Ready 1 \<lparr>vf_handle = 3, vf_timestamp = 150000\<rparr>,
      Ready 1 \<lparr>vf_handle = 4, vf_timestamp = 140000\<rparr>]"


text \<open>
  A legacy rendition whose description is not a hex string of full bytes, a rendition
  without a codec string, a \<open>Hex.toBytes\<close> that throws on a string of odd length, and
  platform decoders: one that supports the probes built without the catalog entry, one
  that supports every probe, and one that rejects a probe with an empty codec string.
\<close>

definition cfg_bad :: video_config where
  "cfg_bad = \<lparr>codec = ''avc1.640028'', codedWidth = Some 1280, codedHeight = Some 720,
             description = Some ''abc'', optimizeForLatency = None, container = Legacy,
             flip = None\<rparr>"

definition cfg_nocodec :: video_config where
  "cfg_nocodec = \<lparr>codec = [], codedWidth = Some 1280, codedHeight = Some 720,
             description = None, optimizeForLatency = None, container = Cmaf 90000,
             flip = None\<rparr>"

definition strict_hex :: "string \<Rightarrow> bytes option" where
  "strict_hex h = (if even (length h) then Some (map of_char h) else None)"

definition cmaf_only_decoder :: "decoder_config \<Rightarrow> bool option" where
  "cmaf_only_decoder c = Some (dc_spread c = None)"

definition any_decoder :: "decoder_config \<Rightarrow> bool option" where
  "any_decoder c = Some True"

definition strict_decoder :: "decoder_config \<Rightarrow> bool option" where
  "strict_decoder c = (if dc_codec c = [] then None else Some True)"

section \<open>Properties\<close>

subsection \<open>Closed forms and well-formedness\<close>

lemma foldl_frame_close:
  "foldl (\<lambda>a w. frame_close (snd w) a) s ws =
     s\<lparr>closed_frames := closed_frames s \<union> (vf_handle \<circ> snd) ` set ws\<rparr>"
proof (induction ws arbitrary: s)
  case Nil
  then show ?case by simp
next
  case (Cons w ws)
  show ?case
    by (simp add: Cons.IH) (simp add: frame_close_def)
qed

lemma close_effect_closed_form:
  "close_effect e s =
     (if e \<in> closed_effects s then s
      else s\<lparr>closed_effects := insert e (closed_effects s),
             timestamp := (if active_effect s = Some e then None else timestamp s),
             waiting := filter (\<lambda>w. fst w \<noteq> e) (waiting s),
             closed_frames := closed_frames s
                \<union> (vf_handle \<circ> snd) ` set (filter (\<lambda>w. fst w = e) (waiting s))\<rparr>)"
  by (simp add: close_effect_def Let_def foldl_frame_close)

lemma runCmafTrack_segment_closed_form:
  "runCmafTrack_segment e smps s =
     s\<lparr>stats := foldl (\<lambda>st smp. Some (next_stats st smp)) (stats s) smps,
       decode_queue := decode_queue s @ map (Pair e) smps\<rparr>"
  unfolding runCmafTrack_segment_def
  by (induction smps arbitrary: s) simp_all














subsection \<open>Evaluating the example runs\<close>

lemmas model_defs =
  run_def step_def settle_def pending_inputs_def constructor_def fields_def
  runPending_def runBuffer_def cleanup_pending_def runTrack_def close_def close_prev_def
  close_effect_closed_form output_begin_def output_resume_def new_frame_def clone_def
  frame_set_def frame_close_def peek_timestamp_def fromMicro_def running_def truthy_str_def
  runLegacyTrack_frame_def runCmafTrack_segment_closed_form next_stats_def Let_def

lemma run_snoc: "run (evs @ [ev]) s = step ev (run evs s)"
  by (simp add: run_def)


lemma started_eq:
  "started =
     \<lparr>broadcast = Some 0, enabled = True, selected = Some ''hd'', selectedConfig = Some sel_hd,
      active = None, pending_effect = Some 0, active_effect = None, frame = None,
      timestamp = None, bufferStatus = Empty, stats = None, next_effect = 1,
      closed_effects = {}, tracks = [0 \<mapsto> (''hd'', sel_hd)], waiting = [],
      decode_queue = [], next_handle = 0, closed_frames = {}, frame_log = [],
      signals_closed = False\<rparr>"
  by (simp add: started_def model_defs)

lemma playing_eq:
  "playing =
     \<lparr>broadcast = Some 0, enabled = True, selected = Some ''hd'', selectedConfig = Some sel_hd,
      active = Some ''hd'', pending_effect = None, active_effect = Some 0,
      frame = Some \<lparr>vf_handle = 2, vf_timestamp = 100000\<rparr>,
      timestamp = Some 100, bufferStatus = Filled, stats = None, next_effect = 1,
      closed_effects = {}, tracks = [0 \<mapsto> (''hd'', sel_hd)], waiting = [],
      decode_queue = [], next_handle = 3, closed_frames = {0, 1},
      frame_log = [(Placeholder, \<lparr>vf_handle = 1, vf_timestamp = 100000\<rparr>),
                   (Gated, \<lparr>vf_handle = 2, vf_timestamp = 100000\<rparr>)],
      signals_closed = False\<rparr>"
  by (simp add: playing_def select_hd_def frame_100_def model_defs insert_commute)

lemma switching_eq:
  "switching =
     \<lparr>broadcast = Some 0, enabled = True, selected = Some ''sd'', selectedConfig = Some sel_sd,
      active = Some ''hd'', pending_effect = Some 1, active_effect = Some 0,
      frame = Some \<lparr>vf_handle = 2, vf_timestamp = 100000\<rparr>,
      timestamp = Some 100, bufferStatus = Filled, stats = None, next_effect = 2,
      closed_effects = {}, tracks = [0 \<mapsto> (''hd'', sel_hd), 1 \<mapsto> (''sd'', sel_sd)],
      waiting = [], decode_queue = [], next_handle = 3, closed_frames = {0, 1},
      frame_log = [(Placeholder, \<lparr>vf_handle = 1, vf_timestamp = 100000\<rparr>),
                   (Gated, \<lparr>vf_handle = 2, vf_timestamp = 100000\<rparr>)],
      signals_closed = False\<rparr>"
  by (simp add: switching_def playing_eq model_defs sel_hd_def sel_sd_def cfg_hd_def cfg_sd_def)

subsection \<open>Order of the published timestamps\<close>

lemma settle_same_inputs:
  "pending_inputs x = pending_inputs s \<Longrightarrow>
   settle s x = (if signals_closed x then x else runBuffer x)"
  by (simp add: settle_def)

lemma output_begin_outcome:
  "\<exists>oc. step_outcome s (output_begin e f s) oc"
proof (cases "fromMicro (vf_timestamp f) < peek_timestamp s")
  case True
  then have "step_outcome s (output_begin e f s) Dropped"
    by (simp add: step_outcome_def output_begin_def frame_close_def)
  then show ?thesis ..
next
  case False
  show ?thesis
  proof (cases "frame s")
    case None
    then have "step_outcome s (output_begin e f s) (Latched (f\<lparr>vf_handle := next_handle s\<rparr>))"
      using False by (simp add: step_outcome_def output_begin_def Let_def clone_def frame_set_def)
    then show ?thesis ..
  next
    case (Some p)
    then have "step_outcome s (output_begin e f s) Dropped"
      using False by (simp add: step_outcome_def output_begin_def Let_def)
    then show ?thesis ..
  qed
qed

lemma output_resume_outcome:
  assumes "\<not> (pending_effect s = Some e \<and> \<not> fromMicro (vf_timestamp f) < peek_timestamp s
             \<and> (case active_effect s of None \<Rightarrow> False | Some a \<Rightarrow> a \<notin> closed_effects s))"
  shows "\<exists>oc. step_outcome s (output_resume e name f ok s) oc"
proof (cases "ok \<and> \<not> fromMicro (vf_timestamp f) < peek_timestamp s")
  case False
  then have "step_outcome s (output_resume e name f ok s) Dropped"
    by (auto simp: step_outcome_def output_resume_def frame_close_def)
  then show ?thesis ..
next
  case True
  then have "step_outcome s (output_resume e name f ok s) (Emitted (f\<lparr>vf_handle := next_handle s\<rparr>))"
    using assms
    by (auto simp: step_outcome_def output_resume_def Let_def clone_def frame_set_def
        frame_close_def close_prev_def close_effect_closed_form split: option.splits)
  then show ?thesis ..
qed

lemma step_outcome_cong:
  "frame_log s0 = frame_log s \<Longrightarrow> timestamp s0 = timestamp s \<Longrightarrow>
   frame_log s1 = frame_log s' \<Longrightarrow> timestamp s1 = timestamp s' \<Longrightarrow>
   step_outcome s0 s1 oc = step_outcome s s' oc"
  by (simp add: step_outcome_def peek_timestamp_def split: outcome.splits)

lemma settle_fields:
  assumes "pending_inputs x = pending_inputs s"
  shows "frame_log (settle s x) = frame_log x" "timestamp (settle s x) = timestamp x"
  using assms by (simp_all add: settle_same_inputs runBuffer_def)

lemma apply_output_inputs:
  "is_output_event ev \<Longrightarrow> pending_inputs (apply_event ev s) = pending_inputs s"
proof (cases ev)
  case (Output e ts)
  then show ?thesis
    by (simp add: pending_inputs_def new_frame_def output_begin_def Let_def clone_def
        frame_set_def frame_close_def)
next
  case (Ready e f)
  then show ?thesis
    by (auto simp: pending_inputs_def output_resume_def Let_def clone_def
        frame_set_def frame_close_def close_prev_def close_effect_closed_form
        split: option.splits)
qed simp_all

lemma apply_output_outcome:
  assumes "is_output_event ev" and "\<not> promotes_over_active ev s"
  shows "\<exists>oc. step_outcome s (apply_event ev s) oc"
proof (cases ev)
  case (Output e ts)
  show ?thesis
  proof (cases "running s e")
    case True
    define s0 where "s0 = s\<lparr>next_handle := Suc (next_handle s)\<rparr>"
    define f where "f = \<lparr>vf_handle = next_handle s, vf_timestamp = ts\<rparr>"
    have ap: "apply_event ev s = output_begin e f s0"
      using Output True by (simp add: new_frame_def s0_def f_def)
    obtain oc where oc: "step_outcome s0 (output_begin e f s0) oc"
      using output_begin_outcome by blast
    have "step_outcome s0 (output_begin e f s0) oc = step_outcome s (apply_event ev s) oc"
      by (rule step_outcome_cong) (simp_all add: ap s0_def)
    then have "step_outcome s (apply_event ev s) oc"
      using oc by simp
    then show ?thesis ..
  next
    case False
    then have "apply_event ev s = s" using Output by simp
    moreover have "step_outcome s s Dropped" by (simp add: step_outcome_def)
    ultimately show ?thesis by auto
  qed
next
  case (Ready e f)
  show ?thesis
  proof (cases "\<exists>name cfg. tracks s e = Some (name, cfg) \<and> (e, f) \<in> set (waiting s)")
    case True
    then obtain name cfg where tr: "tracks s e = Some (name, cfg)" "(e, f) \<in> set (waiting s)"
      by blast
    define s0 where "s0 = s\<lparr>waiting := remove1 (e, f) (waiting s)\<rparr>"
    have ap: "apply_event ev s = output_resume e name f True s0"
      using Ready tr by (simp add: s0_def)
    have q: "\<not> (pending_effect s0 = Some e \<and> \<not> fromMicro (vf_timestamp f) < peek_timestamp s0
             \<and> (case active_effect s0 of None \<Rightarrow> False | Some a \<Rightarrow> a \<notin> closed_effects s0))"
      using assms(2) Ready tr
      by (auto simp: promotes_over_active_def s0_def peek_timestamp_def split: option.splits)
    obtain oc where oc: "step_outcome s0 (output_resume e name f True s0) oc"
      using output_resume_outcome [OF q] by blast
    have "step_outcome s0 (output_resume e name f True s0) oc = step_outcome s (apply_event ev s) oc"
      by (rule step_outcome_cong) (simp_all add: ap s0_def)
    then have "step_outcome s (apply_event ev s) oc"
      using oc by simp
    then show ?thesis ..
  next
    case False
    then have "apply_event ev s = s"
      using Ready by (auto split: option.splits)
    moreover have "step_outcome s s Dropped" by (simp add: step_outcome_def)
    ultimately show ?thesis by auto
  qed
qed (use assms in simp_all)

lemma step_output_outcome:
  assumes "is_output_event ev" and "\<not> promotes_over_active ev s"
  shows "\<exists>oc. step_outcome s (step ev s) oc"
proof -
  have i: "pending_inputs (apply_event ev s) = pending_inputs s"
    using assms(1) by (rule apply_output_inputs)
  obtain oc where oc: "step_outcome s (apply_event ev s) oc"
    using apply_output_outcome [OF assms] by blast
  have "step_outcome s (apply_event ev s) oc = step_outcome s (step ev s) oc"
    by (rule step_outcome_cong) (simp_all add: step_def settle_fields [OF i])
  then have "step_outcome s (step ev s) oc"
    using oc by simp
  then show ?thesis ..
qed

lemma run_output_log:
  assumes "\<forall>ev \<in> set evs. is_output_event ev" and "no_takeover evs s"
  shows "\<exists>new. frame_log (run evs s) = frame_log s @ new \<and> sorted (gated_ts new)
           \<and> (\<forall>t \<in> set (published_ts new). peek_timestamp s \<le> t)"
  using assms
proof (induction evs arbitrary: s)
  case Nil
  then show ?case by (simp add: run_def gated_ts_def published_ts_def)
next
  case (Cons ev evs)
  have ev: "is_output_event ev" and evs: "\<forall>ev \<in> set evs. is_output_event ev"
    using Cons.prems(1) by simp_all
  have nt: "\<not> promotes_over_active ev s" and nts: "no_takeover evs (step ev s)"
    using Cons.prems(2) by simp_all
  obtain oc where oc: "step_outcome s (step ev s) oc"
    using step_output_outcome [OF ev nt] by blast
  obtain new where new: "frame_log (run evs (step ev s)) = frame_log (step ev s) @ new"
    "sorted (gated_ts new)" "\<forall>t \<in> set (published_ts new). peek_timestamp (step ev s) \<le> t"
    using Cons.IH [OF evs nts] by blast
  have r: "run (ev # evs) s = run evs (step ev s)"
    by (simp add: run_def)
  have g: "set (gated_ts new) \<subseteq> set (published_ts new)"
    by (auto simp: gated_ts_def published_ts_def)
  show ?case
  proof (cases oc)
    case Dropped
    then show ?thesis
      using oc new by (auto simp: r step_outcome_def peek_timestamp_def)
  next
    case (Latched c)
    then have "frame_log (run (ev # evs) s) = frame_log s @ ((Placeholder, c) # new)"
      "sorted (gated_ts ((Placeholder, c) # new))"
      "\<forall>t \<in> set (published_ts ((Placeholder, c) # new)). peek_timestamp s \<le> t"
      using oc new by (auto simp: r step_outcome_def peek_timestamp_def gated_ts_def published_ts_def)
    then show ?thesis by blast
  next
    case (Emitted c)
    then have pk: "peek_timestamp (step ev s) = fromMicro (vf_timestamp c)"
      "peek_timestamp s \<le> fromMicro (vf_timestamp c)"
      using oc by (simp_all add: step_outcome_def peek_timestamp_def)
    have "frame_log (run (ev # evs) s) = frame_log s @ ((Gated, c) # new)"
      using Emitted oc new by (simp add: r step_outcome_def)
    moreover have "sorted (gated_ts ((Gated, c) # new))"
      using new(2,3) g pk(1) by (auto simp: gated_ts_def published_ts_def)
    moreover have "\<forall>t \<in> set (published_ts ((Gated, c) # new)). peek_timestamp s \<le> t"
      using new(3) pk by (auto simp: published_ts_def)
    ultimately show ?thesis by blast
  qed
qed

text \<open>
  C1, as amended. Over any sequence of steps of the decoder output path (a frame
  enters the callback, or the wait on Sync of a suspended invocation resolves) in which
  no step promotes a pending pipeline over an active, open one, the timestamps of the
  frames written to \<open>frame\<close> after the wait on Sync are non-decreasing, and no frame
  written to \<open>frame\<close>, latch included, is older than the last emitted timestamp
  (\<open>#timestamp\<close>, 0 when unset) at the start. The latch itself does not advance
  \<open>#timestamp\<close>.
\<close>

theorem gated_timestamps_sorted:
  assumes "\<forall>ev \<in> set evs. is_output_event ev" and "no_takeover evs s"
  shows "sorted (gated_ts (drop (length (frame_log s)) (frame_log (run evs s))))
       \<and> (\<forall>t \<in> set (published_ts (drop (length (frame_log s)) (frame_log (run evs s)))).
             peek_timestamp s \<le> t)"
proof -
  obtain new where "frame_log (run evs s) = frame_log s @ new" "sorted (gated_ts new)"
    "\<forall>t \<in> set (published_ts new). peek_timestamp s \<le> t"
    using run_output_log [OF assms] by blast
  then show ?thesis by simp
qed

theorem gated_timestamps_sorted_witness:
  "is_output_event (Output 0 133333) \<and> is_output_event (Ready 0 frame_133)
   \<and> pending_effect switching = Some 1 \<and> active_effect switching = Some 0
   \<and> no_takeover active_frame_events switching
   \<and> gated_ts (drop (length (frame_log switching))
         (frame_log (run active_frame_events switching))) = [133333 / 1000, 166666 / 1000]
   \<and> sorted (gated_ts (drop (length (frame_log switching))
         (frame_log (run active_frame_events switching))))
   \<and> no_takeover late_frame_events started
   \<and> sorted (gated_ts (drop (length (frame_log started))
         (frame_log (run late_frame_events started))))"
proof -
  have a: "\<forall>ev \<in> set active_frame_events. is_output_event ev"
    "\<forall>ev \<in> set late_frame_events. is_output_event ev"
    by (simp_all add: active_frame_events_def late_frame_events_def)
  have n: "no_takeover active_frame_events switching" "no_takeover late_frame_events started"
    by (simp_all add: active_frame_events_def late_frame_events_def switching_eq started_eq
        promotes_over_active_def model_defs)
  have g: "gated_ts (drop (length (frame_log switching))
         (frame_log (run active_frame_events switching))) = [133333 / 1000, 166666 / 1000]"
    by (simp add: active_frame_events_def switching_eq model_defs gated_ts_def published_ts_def)
  show ?thesis
    using gated_timestamps_sorted [OF a(1) n(1)] gated_timestamps_sorted [OF a(2) n(2)] n g
    by (simp add: switching_eq frame_133_def)
qed

text \<open>
  C1, as stated, fails: the latch publishes the first frame without recording its
  timestamp in \<open>#timestamp\<close>. When the decoder outputs a frame of 100 ms and then one
  of 50 ms, the first is latched, the second passes both staleness checks against the
  unset \<open>#timestamp\<close> and is published after its wait: the frame signal carries
  100, 50, 100.
\<close>

theorem latch_breaks_timestamp_order:
  "\<not> sorted (published_ts (frame_log
       (run (select_hd # late_frame_events) (constructor (Some 0) True))))"
  by (simp add: select_hd_def late_frame_events_def model_defs published_ts_def)

text \<open>
  A promotion over an active pipeline is left out above. There the callback sets
  \<open>#timestamp\<close> and then calls \<open>this.#active?.close()\<close> while \<open>#active\<close> is still the
  old pipeline, whose cleanup sets \<open>#timestamp\<close> to undefined: the timestamp just
  recorded is lost, and a frame of 140 ms is published after one of 150 ms.
\<close>

lemma promotion_resets_last_emitted:
  "timestamp (run (take 3 takeover_events) switching) = None
   \<and> gated_ts (frame_log (run takeover_events switching)) = [100, 150, 140]"
  by (simp add: takeover_events_def switching_eq model_defs gated_ts_def published_ts_def)

subsection \<open>Rendition selection\<close>

lemma arg_min_list_snoc:
  "xs \<noteq> [] \<Longrightarrow>
   arg_min_list f (xs @ [x]) = (if f x < f (arg_min_list f xs) then x else arg_min_list f xs)"
proof (induction xs)
  case Nil
  then show ?case by simp
next
  case (Cons a xs)
  show ?case
  proof (cases xs)
    case Nil
    then show ?thesis by (auto simp: Let_def)
  next
    case (Cons y zs)
    then have "xs \<noteq> []" by simp
    from Cons.IH [OF this] show ?thesis
      using Cons by (auto simp: Let_def)
  qed
qed

lemma has_size_area: "has_size e \<Longrightarrow> area e \<noteq> 0"
  by (auto simp: has_size_def area_def truthy_num_def split: option.splits)

lemma select_step_no_size: "\<not> has_size e \<Longrightarrow> select_step px e acc = acc"
  by (auto simp: select_step_def has_size_def truthy_num_def split: option.splits)

lemma select_step_size:
  "has_size e \<Longrightarrow>
   select_step px e acc =
     (if of_nat (area e) > px \<and> (\<not> truthy_num (largerSize acc) \<or> area e < the (largerSize acc))
      then acc\<lparr>larger := Some (fst e), largerSize := Some (area e)\<rparr>
      else if of_nat (area e) < px \<and> (\<not> truthy_num (smallerSize acc) \<or> area e > the (smallerSize acc))
      then acc\<lparr>smaller := Some (fst e), smallerSize := Some (area e)\<rparr>
      else acc)"
  by (auto simp: select_step_def has_size_def area_def truthy_num_def Let_def split: option.splits)

lemma arg_min_in: "xs \<noteq> [] \<Longrightarrow> arg_min_list f xs \<in> set xs"
  by (rule arg_min_list_in)

lemma select_inv_step:
  assumes "select_inv px es acc"
  shows "select_inv px (es @ [e]) (select_step px e acc)"
proof (cases "has_size e")
  case False
  then show ?thesis
    using assms by (simp add: select_step_no_size select_inv_def above_def below_def)
next
  case True
  have a0: "area e \<noteq> 0" using True by (rule has_size_area)
  have ab: "above px es \<noteq> [] \<Longrightarrow> area (arg_min_list area (above px es)) \<noteq> 0"
    using arg_min_in [of "above px es" area] by (auto simp: above_def has_size_area)
  have be: "below px es \<noteq> [] \<Longrightarrow> area (arg_min_list (\<lambda>e. - int (area e)) (below px es)) \<noteq> 0"
    using arg_min_in [of "below px es" "\<lambda>e. - int (area e)"] by (auto simp: below_def has_size_area)
  consider (gt) "of_nat (area e) > px" | (lt) "of_nat (area e) < px" | (eq) "of_nat (area e) = px"
    by (cases "of_nat (area e) < px"; cases "of_nat (area e) > px"; force)
  then show ?thesis
  proof cases
    case gt
    then have nlt: "\<not> of_nat (area e) < px" by simp
    have A: "above px (es @ [e]) = above px es @ [e]" "below px (es @ [e]) = below px es"
      using True gt nlt by (simp_all add: above_def below_def)
    show ?thesis
      using assms gt True ab a0
      by (auto simp: select_inv_def A select_step_size arg_min_list_snoc truthy_num_def
          split: if_splits)
  next
    case lt
    then have ngt: "\<not> of_nat (area e) > px" by simp
    have A: "above px (es @ [e]) = above px es" "below px (es @ [e]) = below px es @ [e]"
      using True lt ngt by (simp_all add: above_def below_def)
    show ?thesis
      using assms lt ngt True be a0
      by (auto simp: select_inv_def A select_step_size arg_min_list_snoc truthy_num_def
          split: if_splits)
  next
    case eq
    have A: "above px (es @ [e]) = above px es" "below px (es @ [e]) = below px es"
      using True eq by (simp_all add: above_def below_def)
    show ?thesis
      using assms eq True by (simp add: select_inv_def A select_step_size)
  qed
qed

lemma select_inv_foldl: "select_inv px es (foldl (\<lambda>a e. select_step px e a) select_init es)"
proof (induction es rule: rev_induct)
  case Nil
  then show ?case by (simp add: select_inv_def select_init_def above_def below_def)
next
  case (snoc e es)
  then show ?case by (simp add: select_inv_step)
qed

text \<open>
  What the loop computes for two or more renditions with non-empty names: the first
  rendition of least area among those strictly above the target, else the first of
  greatest area among those strictly below it, else the first entry.
\<close>

lemma selectRendition_result:
  assumes "length entries > 1" and "\<forall>e \<in> set entries. fst e \<noteq> []"
  shows "selectRendition entries tgt =
     (if above (target_pixels tgt) entries \<noteq> []
      then Some (fst (arg_min_list area (above (target_pixels tgt) entries)))
      else if below (target_pixels tgt) entries \<noteq> []
      then Some (fst (arg_min_list (\<lambda>e. - int (area e)) (below (target_pixels tgt) entries)))
      else Some (fst (hd entries)))"
proof -
  let ?px = "target_pixels tgt"
  let ?acc = "foldl (\<lambda>a e. select_step ?px e a) select_init entries"
  have inv: "select_inv ?px entries ?acc" by (rule select_inv_foldl)
  have na: "above ?px entries \<noteq> [] \<Longrightarrow> fst (arg_min_list area (above ?px entries)) \<noteq> []"
    using arg_min_in [of "above ?px entries" area] assms(2) by (auto simp: above_def)
  have nb: "below ?px entries \<noteq> [] \<Longrightarrow>
            fst (arg_min_list (\<lambda>e. - int (area e)) (below ?px entries)) \<noteq> []"
    using arg_min_in [of "below ?px entries" "\<lambda>e. - int (area e)"] assms(2) by (auto simp: below_def)
  have sel: "selectRendition entries tgt =
        (if truthy_str (larger ?acc) then larger ?acc
           else if truthy_str (smaller ?acc) then smaller ?acc
           else Some (fst (hd entries)))"
    using assms(1) by (cases entries) (simp_all add: selectRendition_def target_pixels_def Let_def)
  show ?thesis
    using inv na nb unfolding sel
    by (auto simp: select_inv_def truthy_str_def split: if_splits)
qed

text \<open>
  C2. Automatic selection is specified to pick the smallest rendition whose area is at
  least the target. The loop of \<open>#selectRendition\<close> compares with \<open>size > pixels\<close> and
  \<open>size < pixels\<close>, so a rendition whose area equals the target is a candidate on
  neither side: with a 1920x1080 and a 640x360 rendition and a target of
  640 * 360 = 230400 pixels the code returns the 1920x1080 rendition, where the
  smallest rendition of area at least the target is the 640x360 one.
\<close>

theorem selectRendition_skips_equal_area:
  "selectRendition [(''hd'', cfg_hd), (''sd'', cfg_sd)]
     (Some \<lparr>pixels = Some (of_nat (640 * 360)), rendition = None\<rparr>) = Some ''hd''"
  by (simp add: selectRendition_def select_step_def select_init_def cfg_hd_def cfg_sd_def
      truthy_num_def truthy_str_def)

subsection \<open>The capability filter\<close>

lemma record_set_fresh: "k \<notin> fst ` set acc \<Longrightarrow> record_set k v acc = acc @ [(k, v)]"
  by (induction acc) auto

lemma supported_step_fails:
  "probe_fails ok hex e \<Longrightarrow> isl (supported_step ok hex e acc)"
  by (cases "container (snd e)")
     (auto simp: probe_fails_def supported_step_def split: option.splits if_splits)

lemma supported_step_answers:
  assumes "\<not> probe_fails ok hex e" and "fst e \<notin> fst ` set acc"
  shows "supported_step ok hex e acc =
     Inr (acc @ (if (case container (snd e) of
                  Cmaf ts \<Rightarrow>
                    ok \<lparr>dc_codec = codec (snd e), dc_description = None,
                        dc_optimizeForLatency = or_true (optimizeForLatency (snd e)),
                        dc_spread = None\<rparr> = Some True
                | Legacy \<Rightarrow>
                    ok \<lparr>dc_codec = codec (snd e),
                        dc_description = (if truthy_str (description (snd e))
                                          then hex (the (description (snd e))) else None),
                        dc_optimizeForLatency = or_true (optimizeForLatency (snd e)),
                        dc_spread = Some (snd e)\<rparr> = Some True)
            then [e] else []))"
proof (cases "container (snd e)")
  case Legacy
  then show ?thesis
    using assms
    by (auto simp: probe_fails_def supported_step_def record_set_fresh split: option.splits if_splits)
next
  case (Cmaf ts)
  then show ?thesis
    using assms
    by (auto simp: probe_fails_def supported_step_def record_set_fresh split: option.splits)
qed

lemma supported_loop_fails:
  "\<exists>e \<in> set rs. probe_fails ok hex e \<Longrightarrow> isl (supported_loop ok hex rs acc)"
proof (induction rs arbitrary: acc)
  case Nil
  then show ?case by simp
next
  case (Cons e rs)
  show ?case
  proof (cases "supported_step ok hex e acc")
    case (Inl err)
    then show ?thesis by simp
  next
    case (Inr acc')
    then have "\<not> probe_fails ok hex e"
      using supported_step_fails [of ok hex e acc] by auto
    then have "\<exists>e \<in> set rs. probe_fails ok hex e"
      using Cons.prems by auto
    then show ?thesis
      using Inr Cons.IH by simp
  qed
qed

lemma supported_loop_answers:
  assumes "distinct (map fst rs)" and "fst ` set acc \<inter> fst ` set rs = {}"
    and "\<forall>e \<in> set rs. \<not> probe_fails ok hex e"
  shows "supported_loop ok hex rs acc =
     Inr (acc @ filter (\<lambda>e. case container (snd e) of
                  Cmaf ts \<Rightarrow>
                    ok \<lparr>dc_codec = codec (snd e), dc_description = None,
                        dc_optimizeForLatency = or_true (optimizeForLatency (snd e)),
                        dc_spread = None\<rparr> = Some True
                | Legacy \<Rightarrow>
                    ok \<lparr>dc_codec = codec (snd e),
                        dc_description = (if truthy_str (description (snd e))
                                          then hex (the (description (snd e))) else None),
                        dc_optimizeForLatency = or_true (optimizeForLatency (snd e)),
                        dc_spread = Some (snd e)\<rparr> = Some True) rs)"
  using assms
proof (induction rs arbitrary: acc)
  case Nil
  then show ?case by simp
next
  case (Cons e rs)
  have fresh: "fst e \<notin> fst ` set acc"
    using Cons.prems(2) by auto
  have nf: "\<not> probe_fails ok hex e" and nfs: "\<forall>e \<in> set rs. \<not> probe_fails ok hex e"
    using Cons.prems(3) by simp_all
  have d: "distinct (map fst rs)"
    using Cons.prems(1) by simp
  have e_rs: "fst e \<notin> fst ` set rs"
    using Cons.prems(1) by (simp add: image_iff)
  note st = supported_step_answers [OF nf fresh]
  obtain acc' where acc': "supported_step ok hex e acc = Inr acc'" "fst ` set acc' \<subseteq> insert (fst e) (fst ` set acc)"
    using st by (auto split: if_splits)
  have "fst ` set acc \<inter> fst ` set rs = {}"
    using Cons.prems(2) by auto
  then have "insert (fst e) (fst ` set acc) \<inter> fst ` set rs = {}"
    using e_rs by blast
  then have disj: "fst ` set acc' \<inter> fst ` set rs = {}"
    using acc'(2) by blast
  show ?case
    using Cons.IH [OF d disj nfs] acc'(1) st by (auto split: if_splits)
qed

text \<open>
  C9, as amended. For a catalog whose rendition names are distinct (the keys of a
  record), the capability filter probes the renditions in catalog order: a CMAF
  rendition with the codec and \<open>optimizeForLatency\<close> (true by default) and nothing else,
  a legacy rendition with the fields of the rendition, \<open>optimizeForLatency\<close> and the
  hex-decoded description (none when the catalog has no description or an empty one).
  If every description decodes and the decoder answers every probe, exactly the
  renditions it reports as supported are kept, in catalog order, and there is a warning
  exactly when nothing is kept and the catalog has a rendition. If \<open>Hex.toBytes\<close>
  throws or the decoder rejects a probe, the task ends with that error: \<open>#supported\<close>
  is not set and there is no warning.
\<close>

theorem runSupported_outcome:
  assumes "distinct (map fst renditions)"
  shows "if \<exists>e \<in> set renditions. probe_fails ok hex e
         then isl (runSupported ok hex renditions)
         else runSupported ok hex renditions =
           (let kept = filter (\<lambda>e. case container (snd e) of
                  Cmaf ts \<Rightarrow>
                    ok \<lparr>dc_codec = codec (snd e), dc_description = None,
                        dc_optimizeForLatency = or_true (optimizeForLatency (snd e)),
                        dc_spread = None\<rparr> = Some True
                | Legacy \<Rightarrow>
                    ok \<lparr>dc_codec = codec (snd e),
                        dc_description = (if truthy_str (description (snd e))
                                          then hex (the (description (snd e))) else None),
                        dc_optimizeForLatency = or_true (optimizeForLatency (snd e)),
                        dc_spread = Some (snd e)\<rparr> = Some True) renditions
            in Inr (kept, kept = [] \<and> renditions \<noteq> []))"
proof (cases "\<exists>e \<in> set renditions. probe_fails ok hex e")
  case True
  then have "isl (supported_loop ok hex renditions [])"
    by (rule supported_loop_fails)
  then show ?thesis
    using True by (auto simp: runSupported_def split: sum.splits)
next
  case False
  then have nf: "\<forall>e \<in> set renditions. \<not> probe_fails ok hex e"
    by simp
  show ?thesis
    using False supported_loop_answers [OF assms _ nf, of "[]"]
    by (simp add: runSupported_def Let_def)
qed

theorem runSupported_outcome_witness:
  "distinct (map fst [(''hd'', cfg_hd), (''cmaf'', cfg_cmaf)])
   \<and> runSupported cmaf_only_decoder strict_hex [(''hd'', cfg_hd), (''cmaf'', cfg_cmaf)]
       = Inr ([(''cmaf'', cfg_cmaf)], False)
   \<and> runSupported (\<lambda>c. Some False) strict_hex [(''hd'', cfg_hd), (''cmaf'', cfg_cmaf)]
       = Inr ([], True)
   \<and> distinct (map fst [(''bad'', cfg_bad), (''sd'', cfg_sd)])
   \<and> isl (runSupported any_decoder strict_hex [(''bad'', cfg_bad), (''sd'', cfg_sd)])"
proof -
  have d1: "distinct (map fst [(''hd'', cfg_hd), (''cmaf'', cfg_cmaf)])"
    by simp
  have d2: "distinct (map fst [(''bad'', cfg_bad), (''sd'', cfg_sd)])"
    by simp
  show ?thesis
    using runSupported_outcome [OF d1, of cmaf_only_decoder strict_hex]
      runSupported_outcome [OF d1, of "\<lambda>c. Some False" strict_hex]
      runSupported_outcome [OF d2, of any_decoder strict_hex]
    by (simp add: cfg_hd_def cfg_cmaf_def cfg_bad_def cfg_sd_def cmaf_only_decoder_def
        any_decoder_def strict_hex_def truthy_str_def probe_fails_def)
qed

text \<open>
  C9, as stated, fails on a catalog with a rendition whose probe throws: with the entry
  \<open>bad\<close> before it, or the entry without codec after it, the supported rendition \<open>sd\<close>
  is not kept, nothing is stored and no warning is given.
\<close>

theorem runSupported_aborts_on_error:
  "runSupported any_decoder strict_hex [(''bad'', cfg_bad), (''sd'', cfg_sd)] = Inl HexError
   \<and> runSupported strict_decoder strict_hex [(''sd'', cfg_sd), (''nocodec'', cfg_nocodec)]
       = Inl ProbeRejected
   \<and> runSupported any_decoder strict_hex [(''sd'', cfg_sd)] = Inr ([(''sd'', cfg_sd)], False)"
  by (simp add: runSupported_def supported_step_def cfg_bad_def cfg_sd_def cfg_nocodec_def
      any_decoder_def strict_decoder_def strict_hex_def truthy_str_def)

subsection \<open>Switching tracks\<close>








subsection \<open>Source.close\<close>

text \<open>
  C4. After \<open>close()\<close> no frame should be published any more. \<open>close()\<close> closes
  \<open>#signals\<close>, whose cleanup closes the pending pipeline only; the active pipeline is
  closed in the tear-down branch of \<open>#runPending\<close> and on promotion, not here. In the run
  below the pipeline is promoted, \<open>close()\<close> is called (the frame is cleared, no effect
  is closed), and the next frame of the still running decoder is latched at once and
  published again after its wait.
\<close>

theorem frame_published_after_close:
  "signals_closed (run [select_hd, Output 0 100000, Ready 0 frame_100, Close] (constructor (Some 0) True))
   \<and> frame (run [select_hd, Output 0 100000, Ready 0 frame_100, Close] (constructor (Some 0) True)) = None
   \<and> active_effect (run [select_hd, Output 0 100000, Ready 0 frame_100, Close] (constructor (Some 0) True)) = Some 0
   \<and> closed_effects (run [select_hd, Output 0 100000, Ready 0 frame_100, Close] (constructor (Some 0) True)) = {}
   \<and> frame (run [select_hd, Output 0 100000, Ready 0 frame_100, Close, Output 0 200000]
        (constructor (Some 0) True)) = Some \<lparr>vf_handle = 4, vf_timestamp = 200000\<rparr>
   \<and> published_ts (frame_log (run [select_hd, Output 0 100000, Ready 0 frame_100, Close]
        (constructor (Some 0) True))) = [100, 100]
   \<and> published_ts (frame_log (run [select_hd, Output 0 100000, Ready 0 frame_100, Close,
        Output 0 200000, Ready 0 \<lparr>vf_handle = 3, vf_timestamp = 200000\<rparr>]
        (constructor (Some 0) True))) = [100, 100, 200, 200]"
  by (simp add: select_hd_def frame_100_def model_defs published_ts_def)

subsection \<open>A change of the coded size\<close>

lemma runSelected_strips:
  "runSelected en rs tgt = Some (n, c, sc) \<Longrightarrow> sc = c\<lparr>codedWidth := None, codedHeight := None\<rparr>"
  by (auto simp: runSelected_def Let_def split: if_splits option.splits)

text \<open>
  C5. When \<open>#runSelected\<close> selects the same rendition name from two catalogs whose
  configs for it differ only in \<open>codedWidth\<close> and \<open>codedHeight\<close>, the value it writes
  to \<open>#selectedConfig\<close> is the same, so the write of the second selection changes no
  input of \<open>#runPending\<close>: no pipeline is closed or created, and the pending and active
  pipelines, their suspended invocations and the frame are unchanged.
\<close>

theorem coded_size_change_keeps_pipeline:
  assumes "runSelected True sup1 tgt1 = Some (n, c1, sc1)"
    and "runSelected True sup2 tgt2 = Some (n, c2, sc2)"
    and "c2 = c1\<lparr>codedWidth := w, codedHeight := h\<rparr>"
    and "selected s = Some n" and "selectedConfig s = Some sc1"
  shows "sc2 = sc1
       \<and> pending_effect (step (SetSelected (Some n) (Some sc2)) s) = pending_effect s
       \<and> active_effect (step (SetSelected (Some n) (Some sc2)) s) = active_effect s
       \<and> closed_effects (step (SetSelected (Some n) (Some sc2)) s) = closed_effects s
       \<and> tracks (step (SetSelected (Some n) (Some sc2)) s) = tracks s
       \<and> next_effect (step (SetSelected (Some n) (Some sc2)) s) = next_effect s
       \<and> waiting (step (SetSelected (Some n) (Some sc2)) s) = waiting s
       \<and> frame (step (SetSelected (Some n) (Some sc2)) s) = frame s"
proof -
  have "sc1 = c1\<lparr>codedWidth := None, codedHeight := None\<rparr>"
    using assms(1) by (rule runSelected_strips)
  moreover have "sc2 = c2\<lparr>codedWidth := None, codedHeight := None\<rparr>"
    using assms(2) by (rule runSelected_strips)
  ultimately have eq: "sc2 = sc1"
    using assms(3) by simp
  have "apply_event (SetSelected (Some n) (Some sc2)) s = s"
    using assms(4,5) by (simp add: eq)
  then have "step (SetSelected (Some n) (Some sc2)) s = (if signals_closed s then s else runBuffer s)"
    by (simp add: step_def settle_def)
  then show ?thesis
    using eq by (simp add: runBuffer_def)
qed

theorem coded_size_change_keeps_pipeline_witness:
  "runSelected True [(''hd'', cfg_hd)] None = Some (''hd'', cfg_hd, sel_hd)
   \<and> runSelected True [(''hd'', cfg_hd_720)] None = Some (''hd'', cfg_hd_720, sel_hd)
   \<and> active_effect (step (SetSelected (Some ''hd'') (Some sel_hd)) playing) = Some 0
   \<and> closed_effects (step (SetSelected (Some ''hd'') (Some sel_hd)) playing) = {}
   \<and> next_effect (step (SetSelected (Some ''hd'') (Some sel_hd)) playing) = 1"
proof -
  have r1: "runSelected True [(''hd'', cfg_hd)] None = Some (''hd'', cfg_hd, sel_hd)"
    by (simp add: runSelected_def selectRendition_def truthy_str_def sel_hd_def)
  have r2: "runSelected True [(''hd'', cfg_hd_720)] None = Some (''hd'', cfg_hd_720, sel_hd)"
    by (simp add: runSelected_def selectRendition_def truthy_str_def sel_hd_def cfg_hd_720_def)
  have c: "cfg_hd_720 = cfg_hd\<lparr>codedWidth := Some 1280, codedHeight := Some 720\<rparr>"
    by (simp add: cfg_hd_720_def)
  have s: "selected playing = Some ''hd''" "selectedConfig playing = Some sel_hd"
    by (simp_all add: playing_eq)
  show ?thesis
    using coded_size_change_keeps_pipeline [OF r1 r2 c s] r1 r2
    by (simp add: playing_eq)
qed

subsection \<open>The placeholder latch\<close>

text \<open>
  C6. For a decoded frame that passes the first staleness check: if no frame is
  published, a clone of it is written to \<open>frame\<close> at once, before the invocation
  suspends on the wait on Sync, and \<open>#timestamp\<close> is left as it is; if a frame is
  published, \<open>frame\<close> and its history are unchanged when the invocation suspends.
\<close>

theorem output_begin_latch:
  assumes "\<not> fromMicro (vf_timestamp f) < peek_timestamp s"
  shows "frame (output_begin e f s) =
           (if frame s = None then Some (f\<lparr>vf_handle := next_handle s\<rparr>) else frame s)
       \<and> frame_log (output_begin e f s) =
           (if frame s = None then frame_log s @ [(Placeholder, f\<lparr>vf_handle := next_handle s\<rparr>)]
            else frame_log s)
       \<and> waiting (output_begin e f s) = waiting s @ [(e, f)]
       \<and> timestamp (output_begin e f s) = timestamp s"
  using assms by (simp add: output_begin_def Let_def clone_def frame_set_def)

theorem output_begin_latch_witness:
  "\<not> fromMicro (vf_timestamp frame_100) < peek_timestamp started
   \<and> frame (output_begin 0 frame_100 started) = Some \<lparr>vf_handle = 0, vf_timestamp = 100000\<rparr>
   \<and> frame_log (output_begin 0 frame_100 started)
       = [(Placeholder, \<lparr>vf_handle = 0, vf_timestamp = 100000\<rparr>)]
   \<and> \<not> fromMicro (vf_timestamp frame_133) < peek_timestamp playing
   \<and> frame (output_begin 0 frame_133 playing) = frame playing
   \<and> frame_log (output_begin 0 frame_133 playing) = frame_log playing
   \<and> waiting (output_begin 0 frame_133 playing)
       = [(0, frame_133)]"
proof -
  have st: "frame started = None" "timestamp started = None" "frame_log started = []"
    "next_handle started = 0"
    by (simp_all add: started_def model_defs)
  have h1: "\<not> fromMicro (vf_timestamp frame_100) < peek_timestamp started"
    by (simp add: st peek_timestamp_def fromMicro_def frame_100_def)
  have h2: "\<not> fromMicro (vf_timestamp frame_133) < peek_timestamp playing"
    by (simp add: playing_eq peek_timestamp_def fromMicro_def frame_133_def)
  show ?thesis
    using output_begin_latch [OF h1, of 0] output_begin_latch [OF h2, of 0] h1 h2
    by (simp add: st frame_100_def) (simp add: playing_eq frame_133_def)
qed

subsection \<open>Buffer status\<close>

lemma runBuffer_status:
  "(bufferStatus (runBuffer y) = Empty) = (enabled (runBuffer y) \<and> frame (runBuffer y) = None)"
  by (simp add: runBuffer_def)

lemma settle_open: "\<not> signals_closed (settle old x) \<Longrightarrow> \<exists>y. settle old x = runBuffer y"
  by (auto simp: settle_def Let_def)

text \<open>
  C7, as amended. In every settled state a Source reaches from its constructor and in
  which \<open>close()\<close> has not been called, \<open>bufferStatus\<close> is \<open>empty\<close> exactly when the
  Source is enabled and no frame is published, and \<open>filled\<close> otherwise.
\<close>

theorem bufferStatus_while_open:
  assumes "\<not> signals_closed (run evs (constructor b en))"
  shows "(bufferStatus (run evs (constructor b en)) = Empty) =
         (enabled (run evs (constructor b en)) \<and> frame (run evs (constructor b en)) = None)"
proof (cases evs rule: rev_cases)
  case Nil
  then show ?thesis
    by (simp add: run_def constructor_def runBuffer_status)
next
  case (snoc evs' ev)
  then have "\<not> signals_closed (settle (run evs' (constructor b en))
                (apply_event ev (run evs' (constructor b en))))"
    using assms by (simp add: run_snoc step_def)
  then obtain y where "run evs (constructor b en) = runBuffer y"
    using settle_open snoc by (auto simp: run_snoc step_def)
  then show ?thesis
    by (simp add: runBuffer_status)
qed

theorem bufferStatus_while_open_witness:
  "\<not> signals_closed (run [select_hd, Output 0 100000] (constructor (Some 0) True))
   \<and> bufferStatus (run [select_hd, Output 0 100000] (constructor (Some 0) True)) = Filled
   \<and> frame (run [select_hd, Output 0 100000] (constructor (Some 0) True)) \<noteq> None"
  using bufferStatus_while_open [of "[select_hd, Output 0 100000]" "Some 0" True]
  by (simp add: select_hd_def model_defs)

text \<open>
  C7, as stated, fails after \<open>close()\<close>: it clears the frame and closes the effects, so
  \<open>#runBuffer\<close> does not run again and the status stays \<open>filled\<close> while the Source is
  enabled and has no frame.
\<close>

theorem bufferStatus_stale_after_close:
  "\<not> ((bufferStatus (run [select_hd, Output 0 100000, Close] (constructor (Some 0) True)) = Empty)
        = (enabled (run [select_hd, Output 0 100000, Close] (constructor (Some 0) True))
           \<and> frame (run [select_hd, Output 0 100000, Close] (constructor (Some 0) True)) = None))"
  by (simp add: select_hd_def model_defs)

subsection \<open>Stats\<close>

lemma foldl_next_stats:
  "smps \<noteq> [] \<Longrightarrow>
   foldl (\<lambda>st smp. Some (next_stats st smp)) st smps =
     Some \<lparr>frameCount = (case st of None \<Rightarrow> 0 | Some c \<Rightarrow> frameCount c) + length smps,
           stats_timestamp = smp_timestamp (last smps),
           bytesReceived = (case st of None \<Rightarrow> 0 | Some c \<Rightarrow> bytesReceived c)
                           + sum_list (map (\<lambda>smp. length (smp_data smp)) smps)\<rparr>"
proof (induction smps rule: rev_induct)
  case Nil
  then show ?case by simp
next
  case (snoc x xs)
  show ?case
  proof (cases "xs = []")
    case True
    then show ?thesis by (simp add: next_stats_def)
  next
    case False
    from snoc.IH [OF this] show ?thesis
      by (simp add: next_stats_def)
  qed
qed

lemma output_path_keeps_stats:
  "stats (output_begin e f s) = stats s" "stats (output_resume e name f ok s) = stats s"
  by (simp_all add: output_begin_def output_resume_def Let_def clone_def frame_set_def
      frame_close_def close_prev_def close_effect_closed_form split: option.splits)

text \<open>
  C8, as amended. The stats are updated when a sample is received, before it is passed
  to the decoder: after a CMAF segment of samples the frame count has grown by their
  number, \<open>bytesReceived\<close> by the sum of their byte lengths, and \<open>timestamp\<close> is the
  microsecond timestamp of the last sample; after a frame of the legacy consumer the
  count has grown by one, \<open>bytesReceived\<close> by its byte length, and \<open>timestamp\<close> is its
  timestamp. Receiving publishes nothing, and the output callback, which publishes,
  leaves the stats as they are.
\<close>

theorem stats_updated_on_receive:
  assumes "smps \<noteq> []"
  shows "stats (runCmafTrack_segment e smps s) =
           Some \<lparr>frameCount = (case stats s of None \<Rightarrow> 0 | Some c \<Rightarrow> frameCount c) + length smps,
                 stats_timestamp = smp_timestamp (last smps),
                 bytesReceived = (case stats s of None \<Rightarrow> 0 | Some c \<Rightarrow> bytesReceived c)
                                 + sum_list (map (\<lambda>smp. length (smp_data smp)) smps)\<rparr>
       \<and> stats (runLegacyTrack_frame e smp s) =
           Some \<lparr>frameCount = (case stats s of None \<Rightarrow> 0 | Some c \<Rightarrow> frameCount c) + 1,
                 stats_timestamp = smp_timestamp smp,
                 bytesReceived = (case stats s of None \<Rightarrow> 0 | Some c \<Rightarrow> bytesReceived c)
                                 + length (smp_data smp)\<rparr>
       \<and> frame_log (runCmafTrack_segment e smps s) = frame_log s
       \<and> frame_log (runLegacyTrack_frame e smp s) = frame_log s
       \<and> stats (output_begin e f s) = stats s
       \<and> stats (output_resume e name f ok s) = stats s"
proof -
  have "stats (runCmafTrack_segment e smps s) =
           Some \<lparr>frameCount = (case stats s of None \<Rightarrow> 0 | Some c \<Rightarrow> frameCount c) + length smps,
                 stats_timestamp = smp_timestamp (last smps),
                 bytesReceived = (case stats s of None \<Rightarrow> 0 | Some c \<Rightarrow> bytesReceived c)
                                 + sum_list (map (\<lambda>smp. length (smp_data smp)) smps)\<rparr>"
    using assms by (simp add: runCmafTrack_segment_closed_form foldl_next_stats)
  moreover have "stats (runLegacyTrack_frame e smp s) =
           Some \<lparr>frameCount = (case stats s of None \<Rightarrow> 0 | Some c \<Rightarrow> frameCount c) + 1,
                 stats_timestamp = smp_timestamp smp,
                 bytesReceived = (case stats s of None \<Rightarrow> 0 | Some c \<Rightarrow> bytesReceived c)
                                 + length (smp_data smp)\<rparr>"
    by (simp add: runLegacyTrack_frame_def next_stats_def)
  moreover have "frame_log (runCmafTrack_segment e smps s) = frame_log s"
    "frame_log (runLegacyTrack_frame e smp s) = frame_log s"
    by (simp_all add: runCmafTrack_segment_closed_form runLegacyTrack_frame_def)
  ultimately show ?thesis
    by (simp add: output_path_keeps_stats)
qed

theorem stats_updated_on_receive_witness:
  "[sample_100, sample_133] \<noteq> []
   \<and> stats (runCmafTrack_segment 0 [sample_100, sample_133] started) =
       Some \<lparr>frameCount = 2, stats_timestamp = 133333, bytesReceived = 5\<rparr>
   \<and> stats (runLegacyTrack_frame 0 sample_100 started) =
       Some \<lparr>frameCount = 1, stats_timestamp = 100000, bytesReceived = 3\<rparr>"
proof -
  have h: "[sample_100, sample_133] \<noteq> []" by simp
  have st: "stats started = None"
    by (simp add: started_def model_defs)
  show ?thesis
    using stats_updated_on_receive [OF h, of 0 started sample_100] st
    by (simp add: sample_100_def sample_133_def)
qed

text \<open>
  C8, as stated, fails: the stats are not updated on publication. Receiving a sample
  sets the frame count to 1 while nothing is published, and the later publication of
  the decoded frame leaves the count at 1.
\<close>

theorem stats_count_received_samples:
  "stats (run [select_hd, LegacyFrame 0 sample_100] (constructor (Some 0) True)) =
     Some \<lparr>frameCount = 1, stats_timestamp = 100000, bytesReceived = 3\<rparr>
   \<and> frame_log (run [select_hd, LegacyFrame 0 sample_100] (constructor (Some 0) True)) = []
   \<and> published_ts (frame_log (run [select_hd, LegacyFrame 0 sample_100, Output 0 100000,
        Ready 0 frame_100] (constructor (Some 0) True))) = [100, 100]
   \<and> stats (run [select_hd, LegacyFrame 0 sample_100, Output 0 100000, Ready 0 frame_100]
        (constructor (Some 0) True)) =
     Some \<lparr>frameCount = 1, stats_timestamp = 100000, bytesReceived = 3\<rparr>"
  by (simp add: select_hd_def frame_100_def sample_100_def sel_hd_def cfg_hd_def model_defs published_ts_def)

subsection \<open>Tear-down\<close>

text \<open>
  C10. When \<open>#runPending\<close> runs without a broadcast, disabled, without a selected
  rendition or without a selected config, it closes the active pipeline, leaves no
  active pipeline, closes the published frame and sets \<open>frame\<close> to undefined; it
  publishes nothing.
\<close>

theorem runPending_teardown:
  assumes "broadcast s = None \<or> \<not> enabled s \<or> selected s = None \<or> selectedConfig s = None"
  shows "active_effect (runPending s) = None
       \<and> frame (runPending s) = None
       \<and> (case active_effect s of None \<Rightarrow> True | Some a \<Rightarrow> a \<in> closed_effects (runPending s))
       \<and> (case frame s of None \<Rightarrow> True | Some p \<Rightarrow> vf_handle p \<in> closed_frames (runPending s))
       \<and> frame_log (runPending s) = frame_log s"
proof -
  have td: "broadcast s = None \<or> \<not> truthy_str (selected s) \<or> selectedConfig s = None \<or> \<not> enabled s"
    using assms by (auto simp: truthy_str_def)
  show ?thesis
    using td
    by (simp add: runPending_def Let_def close_prev_def frame_close_def close_effect_closed_form
        split: option.splits)
qed

theorem runPending_teardown_witness:
  "\<not> enabled (apply_event (SetEnabled False) playing)
   \<and> active_effect (apply_event (SetEnabled False) playing) = Some 0
   \<and> frame (apply_event (SetEnabled False) playing) = Some \<lparr>vf_handle = 2, vf_timestamp = 100000\<rparr>
   \<and> active_effect (runPending (apply_event (SetEnabled False) playing)) = None
   \<and> frame (runPending (apply_event (SetEnabled False) playing)) = None
   \<and> 0 \<in> closed_effects (runPending (apply_event (SetEnabled False) playing))
   \<and> 2 \<in> closed_frames (runPending (apply_event (SetEnabled False) playing))"
proof -
  have h: "broadcast (apply_event (SetEnabled False) playing) = None
           \<or> \<not> enabled (apply_event (SetEnabled False) playing)
           \<or> selected (apply_event (SetEnabled False) playing) = None
           \<or> selectedConfig (apply_event (SetEnabled False) playing) = None"
    by simp
  show ?thesis
    using runPending_teardown [OF h]
    by (simp add: playing_eq)
qed

end
